theory Spec2Isabelle
  imports Main "HOL-Library.Word"
begin

section \<open>Go run-time behaviour shared by the three packages\<close>

text \<open>
  A Go panic is a value of the type \<open>panic\<close>; a function that can panic returns
  \<open>panic + 'a\<close> with \<open>Inl\<close> for the panic. A Go \<open>error\<close> result is a
  \<open>string option\<close>: \<open>None\<close> is \<open>nil\<close>, \<open>Some msg\<close> is the error with that message.
  Go's \<open>int\<close> is taken on a 64-bit platform. A value of that type is an integer from
  \<open>- (2 ^ 63)\<close> up to \<open>2 ^ 63 - 1\<close>, and the sums and differences of server weights
  wrap around into that range, which \<open>go_int\<close> writes out. The round-robin counter is a
  \<open>uint64\<close> that the code converts to \<open>int\<close>, so it is a 64-bit word read with \<open>sint\<close>.
\<close>

datatype panic =
    NilPointerDereference
  | IntegerDivideByZero
  | IndexOutOfRange
  | InvalidArgumentToIntn
  | CloseOfClosedChannel

type_synonym error = "string option"

text \<open>The Go \<open>int\<close> that the result \<open>x\<close> of an addition or subtraction on \<open>int\<close> wraps
  to (two's complement on 64 bits).\<close>

definition go_int :: "int \<Rightarrow> int" where
  "go_int x = (x + 2 ^ 63) mod 2 ^ 64 - 2 ^ 63"

text \<open>Go's \<open>a % b\<close> on \<open>int\<close>: the remainder of the division truncated towards zero;
  a zero divisor panics.\<close>

definition go_rem :: "int \<Rightarrow> int \<Rightarrow> panic + int" where
  "go_rem a b = (if b = 0 then Inl IntegerDivideByZero else Inr (sgn a * (\<bar>a\<bar> mod \<bar>b\<bar>)))"

text \<open>Go's \<open>xs[i]\<close> on a slice: an index out of range panics.\<close>

definition go_index :: "'a list \<Rightarrow> int \<Rightarrow> panic + 'a" where
  "go_index xs i = (if 0 \<le> i \<and> i < int (length xs) then Inr (xs ! nat i) else Inl IndexOutOfRange)"


section \<open>Package httpbackend: the server pool and its selection policies\<close>

definition policyRoundRobin :: string where "policyRoundRobin = ''roundRobin''"
definition policyRandom :: string where "policyRandom = ''random''"
definition policyWeightedRandom :: string where "policyWeightedRandom = ''weightedRandom''"
definition policyIPHash :: string where "policyIPHash = ''ipHash''"
definition policyHeaderHash :: string where "policyHeaderHash = ''headerHash''"

record Server =
  URL :: string
  Tags :: "string list"
  Weight :: int

record LoadBalance =
  Policy :: string
  HeaderHashKey :: string

text \<open>The fields of the package's \<open>Spec\<close> that \<open>newServers\<close> reads (the struct itself is
  declared in another file of the package).\<close>

record Spec =
  ServersTags :: "string list"
  Servers :: "Server list"
  LoadBalance :: LoadBalance

record servers =
  count :: "64 word"
  weightsSum :: int
  servers :: "Server list"
  lb :: LoadBalance

subsection \<open>LoadBalance.Validate\<close>

definition LoadBalance_Validate :: "LoadBalance \<Rightarrow> error" where
  "LoadBalance_Validate l =
     (if Policy l = policyHeaderHash \<and> length (HeaderHashKey l) = 0
      then Some ''headerHash needs to speficy headerHashKey''
      else None)"

subsection \<open>newServers and prepare\<close>

text \<open>Modelled from the spec: \<open>common.StrInSlice\<close> is not among the sources; the spec's tag
  filter (\<open>tag set intersects the filter\<close>) makes it membership of a string in a slice.\<close>

definition StrInSlice :: "string \<Rightarrow> string list \<Rightarrow> bool" where
  "StrInSlice str strs = (str \<in> set strs)"

text \<open>The inner loop of \<open>newServers\<close>: the tags of the filter in order, left at the first one
  found among the server's tags (\<open>True\<close>: the server was appended before the \<open>break\<close>).\<close>

fun tagsLoop :: "string list \<Rightarrow> Server \<Rightarrow> bool" where
  "tagsLoop [] server = False"
| "tagsLoop (tag # tags) server =
     (if StrInSlice tag (Tags server) then True else tagsLoop tags server)"

text \<open>The outer loop, with the local slice \<open>servers\<close> as accumulator.\<close>

fun serversLoop :: "string list \<Rightarrow> Server list \<Rightarrow> Server list \<Rightarrow> Server list" where
  "serversLoop serversTags [] acc = acc"
| "serversLoop serversTags (server # rest) acc =
     serversLoop serversTags rest (if tagsLoop serversTags server then acc @ [server] else acc)"

fun prepareLoop :: "Server list \<Rightarrow> int \<Rightarrow> int" where
  "prepareLoop [] wsum = wsum"
| "prepareLoop (server # rest) wsum = prepareLoop rest (go_int (wsum + Weight server))"

definition prepare :: "servers \<Rightarrow> servers" where
  "prepare s = s\<lparr>weightsSum := prepareLoop (servers s) (weightsSum s)\<rparr>"

text \<open>\<open>prepare\<close> is deferred: it runs on either return path, after \<open>s.servers\<close> is set.\<close>

definition newServers :: "Spec \<Rightarrow> servers" where
  "newServers spec =
     (let s = \<lparr>count = 0, weightsSum = 0, servers = [], lb = LoadBalance spec\<rparr>
      in if length (ServersTags spec) = 0
         then prepare (s\<lparr>servers := Servers spec\<rparr>)
         else prepare (s\<lparr>servers := serversLoop (ServersTags spec) (Servers spec) []\<rparr>))"

subsection \<open>The random source and the log\<close>

text \<open>
  \<open>math/rand\<close> is a process-wide generator. Its state is the sequence \<open>rng\<close> of raw values
  it has still to deliver; \<open>rand.Intn n\<close> panics for \<open>n \<le> 0\<close> (as the package documents)
  and otherwise reduces the next raw value into \<open>[0, n)\<close>. \<open>logger.Errorf\<close> appends to
  \<open>errors\<close>.
\<close>

datatype lb_log = CannotPickServer int "Server list"

record env =
  rng :: "nat \<Rightarrow> nat"
  errors :: "lb_log list"

definition Intn :: "int \<Rightarrow> env \<Rightarrow> (panic + int) \<times> env" where
  "Intn n e =
     (if n \<le> 0 then (Inl InvalidArgumentToIntn, e)
      else (Inr (int (rng e 0) mod n), e\<lparr>rng := (\<lambda>i. rng e (Suc i))\<rparr>))"

subsection \<open>roundRobin, random, weightedRandom\<close>

text \<open>\<open>atomic.AddUint64\<close> returns the new value of the counter.\<close>

definition roundRobin :: "servers \<Rightarrow> (panic + Server) \<times> servers" where
  "roundRobin s =
     (let count' = count s + 1;
          s' = s\<lparr>count := count'\<rparr>
      in case go_rem (sint count') (int (length (servers s))) of
           Inl p \<Rightarrow> (Inl p, s')
         | Inr i \<Rightarrow> (go_index (servers s) i, s'))"

definition random :: "servers \<Rightarrow> env \<Rightarrow> (panic + Server) \<times> env" where
  "random s e =
     (case Intn (int (length (servers s))) e of
        (Inl p, e') \<Rightarrow> (Inl p, e')
      | (Inr i, e') \<Rightarrow> (go_index (servers s) i, e'))"

text \<open>The loop of \<open>weightedRandom\<close>: \<open>None\<close> when it ends without returning a server.\<close>

fun weightedLoop :: "int \<Rightarrow> Server list \<Rightarrow> Server option" where
  "weightedLoop randomWeight [] = None"
| "weightedLoop randomWeight (server # rest) =
     (let randomWeight' = go_int (randomWeight - Weight server)
      in if randomWeight' < 0 then Some server else weightedLoop randomWeight' rest)"

definition weightedRandom :: "servers \<Rightarrow> env \<Rightarrow> (panic + Server) \<times> env" where
  "weightedRandom s e =
     (case Intn (weightsSum s) e of
        (Inl p, e') \<Rightarrow> (Inl p, e')
      | (Inr randomWeight, e') \<Rightarrow>
          (case weightedLoop randomWeight (servers s) of
             Some server \<Rightarrow> (Inr server, e')
           | None \<Rightarrow>
               random s (e'\<lparr>errors := errors e' @ [CannotPickServer (weightsSum s) (servers s)]\<rparr>)))"

text \<open>Sequential selections by \<open>roundRobin\<close> on one pool, the results in order.\<close>

fun roundRobin_times :: "nat \<Rightarrow> servers \<Rightarrow> (panic + Server) list" where
  "roundRobin_times 0 s = []"
| "roundRobin_times (Suc n) s = (case roundRobin s of (r, s') \<Rightarrow> r # roundRobin_times n s')"

text \<open>Pools for concrete selections: a server without tags, a spec without tag filter, and
  a random source whose raw values are all \<open>n\<close>.\<close>

definition srv :: "string \<Rightarrow> int \<Rightarrow> Server" where
  "srv url w = \<lparr>URL = url, Tags = [], Weight = w\<rparr>"

definition pool_spec :: "string \<Rightarrow> Server list \<Rightarrow> Spec" where
  "pool_spec policy svs =
     \<lparr>ServersTags = [], Servers = svs, LoadBalance = \<lparr>Policy = policy, HeaderHashKey = []\<rparr>\<rparr>"

definition constant_env :: "nat \<Rightarrow> env" where
  "constant_env n = \<lparr>rng = (\<lambda>i. n), errors = []\<rparr>"

text \<open>The range that the struct tag \<open>gte=0,lte=100\<close> of \<open>Weight\<close> declares.\<close>

definition weightInRange :: "Server \<Rightarrow> bool" where
  "weightInRange server = (0 \<le> Weight server \<and> Weight server \<le> 100)"

text \<open>The cumulative weight of the servers up to and including index \<open>i\<close>.\<close>

definition cumulativeWeight :: "Server list \<Rightarrow> nat \<Rightarrow> int" where
  "cumulativeWeight xs i = sum_list (map Weight (take (Suc i) xs))"


section \<open>Package pipelines: CommonConfig\<close>

text \<open>
  \<open>strings.TrimSpace\<close> works on the runes that the UTF-8 decoding of a string yields, so
  the pipeline name is held as that sequence of runes (code points); its byte length is
  zero exactly when the sequence is empty. \<open>IsSpace\<close> is Go's \<open>unicode.IsSpace\<close>: the
  Latin-1 white space and the other code points of the Unicode property White\_Space.
\<close>

type_synonym rune = nat

definition IsSpace :: "rune \<Rightarrow> bool" where
  "IsSpace r =
     (if r \<le> 255 then r \<in> {9, 10, 11, 12, 13, 32, 133, 160}
      else r = 5760 \<or> (8192 \<le> r \<and> r \<le> 8202) \<or> r = 8232 \<or> r = 8233 \<or> r = 8239
           \<or> r = 8287 \<or> r = 12288)"

definition TrimSpace :: "rune list \<Rightarrow> rune list" where
  "TrimSpace str = rev (dropWhile IsSpace (rev (dropWhile IsSpace str)))"

record CommonConfig =
  Name :: "rune list"
  Plugins :: "string list"
  ParallelismCount :: "16 word"

definition PipelineName :: "CommonConfig \<Rightarrow> rune list" where
  "PipelineName c = Name c"

definition PluginNames :: "CommonConfig \<Rightarrow> string list" where
  "PluginNames c = Plugins c"

definition Parallelism :: "CommonConfig \<Rightarrow> 16 word" where
  "Parallelism c = ParallelismCount c"

definition Prepare :: "CommonConfig \<Rightarrow> error" where
  "Prepare c =
     (if length (TrimSpace (PipelineName c)) = 0 then Some ''invalid pipeline name''
      else if length (PluginNames c) = 0 then Some ''pipeline is empty''
      else if Parallelism c < 1 then Some ''invalid pipeline parallelism''
      else None)"


section \<open>Package eurekaserviceregistry: the sync loop\<close>

subsection \<open>Data\<close>

text \<open>\<open>Spec\<close> of the registry; \<open>spec_Name\<close> is the \<open>Name\<close> of the inlined
  \<open>scheduler.ObjectMeta\<close>.\<close>

record RegistrySpec =
  spec_Name :: string
  Endpoints :: "string list"
  SyncInterval :: string

text \<open>
  What the code reads of the Eureka client library: an application has a name and
  instances; an instance has a host name, an address and two pointers to ports, each
  of which may be \<open>nil\<close>; a port has a number (Go \<open>int\<close>) and an enabled flag. A client
  is represented by the endpoints it was built from.
\<close>

record eureka_Port =
  Port_Port :: int
  Enabled :: bool

record InstanceInfo =
  HostName :: string
  IpAddr :: string
  Port :: "eureka_Port option"
  SecurePort :: "eureka_Port option"

record Application =
  app_Name :: string
  Instances :: "InstanceInfo list"

record Applications =
  Applications :: "Application list"

record Client =
  machines :: "string list"

text \<open>\<open>serviceregistry.Server\<close>, with the fields that \<open>update\<close> sets; the conversion
  \<open>int16(...)\<close> makes its port a 16-bit word.\<close>

record RegistryServer =
  ServiceName :: string
  Hostname :: string
  HostIP :: string
  Server_Port :: "16 word"
  Scheme :: string

record EurekaServiceRegistry =
  spec :: RegistrySpec
  client :: "Client option"
  serversNum :: "string \<rightharpoonup> int"
  done_closed :: bool

text \<open>
  The effects outside the object: the calls made on \<open>serviceregistry.Global\<close> in order
  (the published snapshot changes by these calls only), the lines given to
  \<open>logger.Errorf\<close>, and the servers printed on standard output.
\<close>

datatype call = ReplaceServers string "RegistryServer list" | CloseRegistry string

datatype log_entry =
    GetClientFailed string string
  | GetServicesFailed string string
  | ParseDurationFailed string string

record globals =
  calls :: "call list"
  logged :: "log_entry list"
  stdout :: "RegistryServer list"

subsection \<open>Spec\<close>

definition DefaultSpec :: RegistrySpec where
  "DefaultSpec =
     \<lparr>spec_Name = '''', Endpoints = [''http://127.0.0.1:8761/eureka''], SyncInterval = ''10s''\<rparr>"

definition Spec_Validate :: "RegistrySpec \<Rightarrow> error" where
  "Spec_Validate sp = None"

subsection \<open>The client\<close>

definition NewClient :: "string list \<Rightarrow> Client" where
  "NewClient endpoints = \<lparr>machines = endpoints\<rparr>"

definition buildClient :: "EurekaServiceRegistry \<Rightarrow> (string + Client) \<times> EurekaServiceRegistry" where
  "buildClient esr =
     (case client esr of
        Some c \<Rightarrow> (Inr c, esr)
      | None \<Rightarrow> (let c = NewClient (Endpoints (spec esr)) in (Inr c, esr\<lparr>client := Some c\<rparr>)))"

definition getClient :: "EurekaServiceRegistry \<Rightarrow> (string + Client) \<times> EurekaServiceRegistry" where
  "getClient esr =
     (case client esr of
        Some c \<Rightarrow> (Inr c, esr)
      | None \<Rightarrow> buildClient esr)"

definition closeClient :: "EurekaServiceRegistry \<Rightarrow> EurekaServiceRegistry" where
  "closeClient esr = (case client esr of None \<Rightarrow> esr | Some c \<Rightarrow> esr\<lparr>client := None\<rparr>)"

subsection \<open>update\<close>

text \<open>The state of the two nested loops: the slice \<open>servers\<close>, the map \<open>serversNum\<close> and
  standard output.\<close>

type_synonym loop_state = "RegistryServer list \<times> (string \<rightharpoonup> int) \<times> RegistryServer list"

text \<open>Go's \<open>m[k]++\<close> on a \<open>map[string]int\<close>: a missing key reads as 0.\<close>

definition increment :: "(string \<rightharpoonup> int) \<Rightarrow> string \<Rightarrow> (string \<rightharpoonup> int)" where
  "increment m k = m(k \<mapsto> (case m k of None \<Rightarrow> 0 | Some n \<Rightarrow> n) + 1)"

text \<open>\<open>p != nil && p.Enabled\<close>.\<close>

definition enabled :: "eureka_Port option \<Rightarrow> bool" where
  "enabled p = (case p of None \<Rightarrow> False | Some port \<Rightarrow> Enabled port)"

text \<open>Printing the server, appending its copy and counting it.\<close>

definition emit :: "string \<Rightarrow> RegistryServer \<Rightarrow> loop_state \<Rightarrow> loop_state" where
  "emit appName server st =
     (case st of (servers', serversNum', out) \<Rightarrow>
        (servers' @ [server], increment serversNum' appName, out @ [server]))"

text \<open>The body of the inner loop. \<open>baseServer\<close> reads \<open>instance.Port.Port\<close> first: a \<open>nil\<close>
  \<open>instance.Port\<close> panics there.\<close>

definition instanceStep :: "string \<Rightarrow> InstanceInfo \<Rightarrow> loop_state \<Rightarrow> panic + loop_state" where
  "instanceStep appName instance st =
     (case Port instance of
        None \<Rightarrow> Inl NilPointerDereference
      | Some port \<Rightarrow>
          (let baseServer =
                 \<lparr>ServiceName = appName, Hostname = HostName instance, HostIP = IpAddr instance,
                  Server_Port = word_of_int (Port_Port port), Scheme = ''''\<rparr>;
               st1 = (if enabled (Port instance) then emit appName baseServer st else st);
               st2 = (if enabled (SecurePort instance)
                      then emit appName (baseServer\<lparr>Scheme := ''https''\<rparr>) st1 else st1)
           in Inr st2))"

fun instancesLoop :: "string \<Rightarrow> InstanceInfo list \<Rightarrow> loop_state \<Rightarrow> panic + loop_state" where
  "instancesLoop appName [] st = Inr st"
| "instancesLoop appName (instance # rest) st =
     (case instanceStep appName instance st of
        Inl p \<Rightarrow> Inl p
      | Inr st' \<Rightarrow> instancesLoop appName rest st')"

fun appsLoop :: "Application list \<Rightarrow> loop_state \<Rightarrow> panic + loop_state" where
  "appsLoop [] st = Inr st"
| "appsLoop (app # rest) st =
     (case instancesLoop (app_Name app) (Instances app) st of
        Inl p \<Rightarrow> Inl p
      | Inr st' \<Rightarrow> appsLoop rest st')"

text \<open>One sync tick. \<open>GetApplications\<close> is what the upstream answers to the client on this
  tick: an error message or the applications.\<close>

definition update ::
  "(Client \<Rightarrow> string + Applications) \<Rightarrow> EurekaServiceRegistry \<times> globals \<Rightarrow>
   panic + EurekaServiceRegistry \<times> globals" where
  "update GetApplications w =
     (case w of (esr, g) \<Rightarrow>
       (case getClient esr of
          (Inl err, esr1) \<Rightarrow>
            Inr (esr1, g\<lparr>logged := logged g @ [GetClientFailed (spec_Name (spec esr1)) err]\<rparr>)
        | (Inr cl, esr1) \<Rightarrow>
            (case GetApplications cl of
               Inl err \<Rightarrow>
                 Inr (esr1, g\<lparr>logged := logged g @ [GetServicesFailed (spec_Name (spec esr1)) err]\<rparr>)
             | Inr apps \<Rightarrow>
                 (case appsLoop (Applications apps) ([], Map.empty, stdout g) of
                    Inl p \<Rightarrow> Inl p
                  | Inr (servers', serversNum', out) \<Rightarrow>
                      Inr (esr1\<lparr>serversNum := serversNum'\<rparr>,
                           g\<lparr>calls := calls g @ [ReplaceServers (spec_Name (spec esr1)) servers'],
                             stdout := out\<rparr>)))))"

subsection \<open>run, Close and New\<close>

text \<open>
  The loop of \<open>run\<close> waits for the \<open>done\<close> signal or the timer; what it observes is a
  sequence of events, a tick carrying the upstream's answer of that tick. With no event
  left the loop is still waiting. \<open>time.ParseDuration\<close> is a parameter: it gives an error
  message or the interval in nanoseconds.
\<close>

datatype event = Done | Tick "Client \<Rightarrow> string + Applications"

fun runLoop :: "event list \<Rightarrow> EurekaServiceRegistry \<times> globals \<Rightarrow>
    panic + EurekaServiceRegistry \<times> globals" where
  "runLoop [] w = Inr w"
| "runLoop (Done # evs) w = Inr w"
| "runLoop (Tick GetApplications # evs) w =
     (case update GetApplications w of
        Inl p \<Rightarrow> Inl p
      | Inr w' \<Rightarrow> runLoop evs w')"

definition run ::
  "(string \<Rightarrow> string + int) \<Rightarrow> (Client \<Rightarrow> string + Applications) \<Rightarrow> event list \<Rightarrow>
   EurekaServiceRegistry \<times> globals \<Rightarrow> panic + EurekaServiceRegistry \<times> globals" where
  "run ParseDuration GetApplications evs w =
     (case w of (esr, g) \<Rightarrow>
       (case ParseDuration (SyncInterval (spec esr)) of
          Inl err \<Rightarrow>
            Inr (esr, g\<lparr>logged := logged g @ [ParseDurationFailed (SyncInterval (spec esr)) err]\<rparr>)
        | Inr syncInterval \<Rightarrow>
            (case update GetApplications w of
               Inl p \<Rightarrow> Inl p
             | Inr w' \<Rightarrow> runLoop evs w')))"

text \<open>Closing a closed channel panics.\<close>

definition Close :: "EurekaServiceRegistry \<times> globals \<Rightarrow> panic + EurekaServiceRegistry \<times> globals" where
  "Close w =
     (case w of (esr, g) \<Rightarrow>
       (let esr1 = closeClient esr
        in if done_closed esr1 then Inl CloseOfClosedChannel
           else Inr (esr1\<lparr>done_closed := True\<rparr>,
                     g\<lparr>calls := calls g @ [CloseRegistry (spec_Name (spec esr1))]\<rparr>)))"

text \<open>\<open>New\<close> has no error result. It starts \<open>run\<close> as a goroutine, which \<open>run\<close> above models
  on the registry that \<open>New\<close> returns.\<close>

definition New ::
  "RegistrySpec \<Rightarrow> EurekaServiceRegistry option \<Rightarrow> globals \<Rightarrow>
   panic + EurekaServiceRegistry \<times> globals" where
  "New sp prev g =
     (let esr = \<lparr>spec = sp, client = None, serversNum = Map.empty, done_closed = False\<rparr>
      in case (case prev of None \<Rightarrow> Inr g | Some p \<Rightarrow> map_sum id snd (Close (p, g))) of
           Inl pn \<Rightarrow> Inl pn
         | Inr g1 \<Rightarrow>
             (case getClient esr of
                (Inl err, esr1) \<Rightarrow>
                  Inr (esr1, g1\<lparr>logged := logged g1 @ [GetClientFailed (spec_Name sp) err]\<rparr>)
              | (Inr cl, esr1) \<Rightarrow> Inr (esr1, g1)))"

subsection \<open>Concrete registries and upstream answers\<close>

text \<open>A registry as \<open>New\<close> leaves it before the client is built, one that has published a
  snapshot, an upstream that answers with the given applications, and two instances.\<close>

definition esr0 :: EurekaServiceRegistry where
  "esr0 =
     \<lparr>spec = DefaultSpec\<lparr>spec_Name := ''eureka''\<rparr>, client = None, serversNum = Map.empty,
      done_closed = False\<rparr>"

definition globals0 :: globals where
  "globals0 = \<lparr>calls = [], logged = [], stdout = []\<rparr>"

definition esr1 :: EurekaServiceRegistry where
  "esr1 = esr0\<lparr>serversNum := [''svc'' \<mapsto> 1]\<rparr>"

definition globals1 :: globals where
  "globals1 =
     globals0\<lparr>calls :=
       [ReplaceServers ''eureka''
          [\<lparr>ServiceName = ''svc'', Hostname = ''h1'', HostIP = ''10.0.0.1'', Server_Port = 8080,
            Scheme = []\<rparr>]]\<rparr>"

definition upstream :: "Application list \<Rightarrow> Client \<Rightarrow> string + Applications" where
  "upstream apps cl = Inr \<lparr>Applications = apps\<rparr>"

definition instance_both :: InstanceInfo where
  "instance_both =
     \<lparr>HostName = ''h1'', IpAddr = ''10.0.0.1'',
      Port = Some \<lparr>Port_Port = 8080, Enabled = True\<rparr>,
      SecurePort = Some \<lparr>Port_Port = 8443, Enabled = True\<rparr>\<rparr>"

definition instance_secure_only :: InstanceInfo where
  "instance_secure_only =
     \<lparr>HostName = ''h2'', IpAddr = ''10.0.0.2'',
      Port = None,
      SecurePort = Some \<lparr>Port_Port = 8443, Enabled = True\<rparr>\<rparr>"


text \<open>An upstream whose fetch fails, and the answers of \<open>time.ParseDuration\<close> at the two
  strings used below: it accepts \<open>10s\<close> (ten seconds in nanoseconds) and rejects
  \<open>soon\<close>.\<close>

definition upstream_down :: "Client \<Rightarrow> string + Applications" where
  "upstream_down cl = Inl ''connection refused''"

definition ParseDuration_sample :: "string \<Rightarrow> string + int" where
  "ParseDuration_sample str =
     (if str = ''10s'' then Inr 10000000000 else Inl ''time: invalid duration'')"

text \<open>Two pipeline configurations: one with a name of a space and a tab, one with the
  name \<open>p1\<close>.\<close>

definition config_blank :: CommonConfig where
  "config_blank = \<lparr>Name = [32, 9], Plugins = [''in'', ''out''], ParallelismCount = 4\<rparr>"

definition config_ok :: CommonConfig where
  "config_ok = \<lparr>Name = [112, 49], Plugins = [''in'', ''out''], ParallelismCount = 1\<rparr>"


section \<open>Properties of the server pool\<close>

lemma sint_nonneg_unat: "0 \<le> sint (w :: 64 word) \<Longrightarrow> sint w = int (unat w)"
proof -
  assume a: "0 \<le> sint w"
  have "uint w = take_bit 64 (sint w)" using uint_sint [of w] by simp
  also have "\<dots> = sint w" using a sint_lt [of w] by (simp add: take_bit_int_eq_self)
  finally show ?thesis by simp
qed

lemma go_rem_nonneg: "0 \<le> a \<Longrightarrow> 0 < b \<Longrightarrow> go_rem a b = Inr (a mod b)"
  by (cases "a = 0") (simp_all add: go_rem_def)

lemma roundRobin_index:
  assumes "servers s \<noteq> []" and "0 \<le> sint (count s + 1)"
  shows "roundRobin s =
    (Inr (servers s ! (unat (count s + 1) mod length (servers s))), s\<lparr>count := count s + 1\<rparr>)"
proof -
  let ?c = "count s + 1"
  let ?n = "length (servers s)"
  have n: "0 < int ?n" using assms(1) by simp
  have r: "go_rem (sint ?c) (int ?n) = Inr (int (unat ?c mod ?n))"
    using go_rem_nonneg [OF assms(2) n] sint_nonneg_unat [OF assms(2)]
    by (simp add: zmod_int)
  have i: "go_index (servers s) (int (unat ?c mod ?n)) = Inr (servers s ! (unat ?c mod ?n))"
    using assms(1) by (simp add: go_index_def)
  show ?thesis
    by (simp add: roundRobin_def Let_def r i)
qed

lemma tagsLoop_iff: "tagsLoop tags sv \<longleftrightarrow> set (Tags sv) \<inter> set tags \<noteq> {}"
  by (induction tags) (auto simp: StrInSlice_def)

lemma serversLoop_filter: "serversLoop tags xs acc = acc @ filter (tagsLoop tags) xs"
  by (induction xs arbitrary: acc) simp_all

lemma go_int_id: "- (2 ^ 63) \<le> x \<Longrightarrow> x < 2 ^ 63 \<Longrightarrow> go_int x = x"
  by (simp add: go_int_def)

lemma go_int_add: "go_int (go_int a + b) = go_int (a + b)"
proof -
  have "(go_int a + b + 2 ^ 63) mod 2 ^ 64 = ((a + 2 ^ 63) mod 2 ^ 64 + b) mod 2 ^ 64"
    by (simp add: go_int_def)
  also have "\<dots> = (a + 2 ^ 63 + b) mod 2 ^ 64"
    by (rule mod_add_left_eq)
  also have "\<dots> = (a + b + 2 ^ 63) mod 2 ^ 64"
    by (simp add: ac_simps)
  finally show ?thesis by (simp add: go_int_def)
qed

lemma prepareLoop_sum: "prepareLoop xs (go_int a) = go_int (a + sum_list (map Weight xs))"
proof (induction xs arbitrary: a)
  case Nil
  then show ?case by simp
next
  case (Cons x xs)
  have "prepareLoop (x # xs) (go_int a) = prepareLoop xs (go_int (a + Weight x))"
    by (simp add: go_int_add)
  also have "\<dots> = go_int (a + Weight x + sum_list (map Weight xs))"
    by (rule Cons.IH)
  finally show ?case by (simp add: ac_simps)
qed

lemma prepareLoop_zero: "prepareLoop xs 0 = go_int (sum_list (map Weight xs))"
proof -
  have "go_int 0 = 0" by (simp add: go_int_def)
  with prepareLoop_sum [of xs 0] show ?thesis by simp
qed

lemma servers_newServers:
  "servers (newServers sp) =
     (if ServersTags sp = [] then Servers sp
      else filter (\<lambda>sv. set (Tags sv) \<inter> set (ServersTags sp) \<noteq> {}) (Servers sp))"
proof -
  have "tagsLoop (ServersTags sp) = (\<lambda>sv. set (Tags sv) \<inter> set (ServersTags sp) \<noteq> {})"
    by (rule ext) (rule tagsLoop_iff)
  then show ?thesis
    by (simp add: newServers_def prepare_def Let_def serversLoop_filter)
qed

lemma weightsSum_newServers:
  "weightsSum (newServers sp) = go_int (sum_list (map Weight (servers (newServers sp))))"
  by (simp add: newServers_def prepare_def Let_def prepareLoop_zero)

lemma sum_weights_bounds:
  "list_all weightInRange xs \<Longrightarrow>
   0 \<le> sum_list (map Weight xs) \<and> sum_list (map Weight xs) \<le> 100 * int (length xs)"
  by (induction xs) (auto simp: weightInRange_def)

lemma weightsSum_newServers_exact:
  assumes "list_all weightInRange (Servers sp)" and "length (Servers sp) \<le> 2 ^ 56"
  shows "weightsSum (newServers sp) = sum_list (map Weight (servers (newServers sp)))"
proof -
  let ?xs = "servers (newServers sp)"
  have r: "list_all weightInRange ?xs"
    using assms(1) by (simp add: servers_newServers list_all_iff)
  have "length ?xs \<le> length (Servers sp)"
    by (simp add: servers_newServers)
  with assms(2) have l: "int (length ?xs) \<le> 2 ^ 56" by simp
  from sum_weights_bounds [OF r] l
  have "0 \<le> sum_list (map Weight ?xs)" and "sum_list (map Weight ?xs) < 2 ^ 63"
    by simp_all
  then have "go_int (sum_list (map Weight ?xs)) = sum_list (map Weight ?xs)"
    by (intro go_int_id) simp_all
  then show ?thesis by (simp add: weightsSum_newServers)
qed

lemma weightedLoop_picks:
  "0 \<le> r \<Longrightarrow> r < 2 ^ 63 \<Longrightarrow> list_all weightInRange xs \<Longrightarrow>
   r < sum_list (map Weight xs) \<Longrightarrow>
   \<exists>i<length xs. weightedLoop r xs = Some (xs ! i) \<and> r < cumulativeWeight xs i \<and>
      (\<forall>j<i. cumulativeWeight xs j \<le> r)"
proof (induction xs arbitrary: r)
  case Nil
  then show ?case by simp
next
  case (Cons x xs)
  from Cons.prems(3) have rest: "list_all weightInRange xs" and "weightInRange x"
    by simp_all
  then have w: "0 \<le> Weight x" "Weight x \<le> 100"
    by (simp_all add: weightInRange_def)
  from Cons.prems(1,2) w have g: "go_int (r - Weight x) = r - Weight x"
    by (intro go_int_id) simp_all
  show ?case
  proof (cases "r - Weight x < 0")
    case True
    then have "weightedLoop r (x # xs) = Some ((x # xs) ! 0) \<and> r < cumulativeWeight (x # xs) 0"
      by (simp add: cumulativeWeight_def g)
    then show ?thesis by blast
  next
    case False
    from False have nn: "0 \<le> r - Weight x" by simp
    from Cons.prems(2) w have lt: "r - Weight x < 2 ^ 63" by simp
    from Cons.prems(4) have "r - Weight x < sum_list (map Weight xs)" by simp
    from Cons.IH [OF nn lt rest this] obtain i where i: "i < length xs"
      "weightedLoop (r - Weight x) xs = Some (xs ! i)"
      "r - Weight x < cumulativeWeight xs i"
      "\<forall>j<i. cumulativeWeight xs j \<le> r - Weight x" by blast
    have c: "\<And>k. cumulativeWeight (x # xs) (Suc k) = Weight x + cumulativeWeight xs k"
      by (simp add: cumulativeWeight_def)
    have c0: "cumulativeWeight (x # xs) 0 = Weight x"
      by (simp add: cumulativeWeight_def)
    have 1: "weightedLoop r (x # xs) = Some ((x # xs) ! Suc i)"
      using False i(2) by (simp add: g)
    have 2: "r < cumulativeWeight (x # xs) (Suc i)" using i(3) c by simp
    have 3: "\<forall>j<Suc i. cumulativeWeight (x # xs) j \<le> r"
    proof (intro allI impI)
      fix j assume "j < Suc i"
      then show "cumulativeWeight (x # xs) j \<le> r"
        using False i(4) c c0 by (cases j) auto
    qed
    from 1 2 3 i(1) show ?thesis by (intro exI [of _ "Suc i"]) simp
  qed
qed

lemma weightedRandom_picks:
  assumes "list_all weightInRange (servers s)"
    and "weightsSum s = sum_list (map Weight (servers s))"
    and "0 < weightsSum s" and "weightsSum s < 2 ^ 63"
  shows "\<exists>r i. fst (Intn (weightsSum s) e) = Inr r \<and> 0 \<le> r \<and> r < weightsSum s \<and>
     i < length (servers s) \<and> fst (weightedRandom s e) = Inr (servers s ! i) \<and>
     r < cumulativeWeight (servers s) i \<and> (\<forall>j<i. cumulativeWeight (servers s) j \<le> r)"
proof -
  define r where "r = int (rng e 0) mod weightsSum s"
  have I: "Intn (weightsSum s) e = (Inr r, e\<lparr>rng := (\<lambda>i. rng e (Suc i))\<rparr>)"
    using assms(3) by (simp add: Intn_def r_def)
  have b: "0 \<le> r" "r < weightsSum s" using assms(3) by (simp_all add: r_def)
  from b(2) assms(4) have b63: "r < 2 ^ 63" by simp
  from b(2) assms(2) have "r < sum_list (map Weight (servers s))" by simp
  from weightedLoop_picks [OF b(1) b63 assms(1) this] obtain i where i: "i < length (servers s)"
    "weightedLoop r (servers s) = Some (servers s ! i)"
    "r < cumulativeWeight (servers s) i"
    "\<forall>j<i. cumulativeWeight (servers s) j \<le> r" by blast
  have "fst (weightedRandom s e) = Inr (servers s ! i)"
    by (simp add: weightedRandom_def I i(2))
  with I b i show ?thesis by auto
qed

text \<open>
  Claim C1, as the code has it. \<open>roundRobin\<close> increments the 64-bit counter and returns the
  server at the index (incremented counter) mod (number of servers), for a pool that is
  not empty and an incremented counter below \<open>2 ^ 63\<close> (non-negative as an \<open>int\<close>). The
  counter of a fresh pool is 0 and the index uses the value after the increment, so nine
  selections over the servers A, B, C return B, C, A, B, C, A, B, C, A.
\<close>

theorem roundRobin_selects:
  "(servers s \<noteq> [] \<and> 0 \<le> sint (count s + 1) \<longrightarrow>
      roundRobin s =
        (Inr (servers s ! (unat (count s + 1) mod length (servers s))),
         s\<lparr>count := count s + 1\<rparr>)) \<and>
   roundRobin_times 9
       (newServers (pool_spec policyRoundRobin [srv ''A'' 0, srv ''B'' 0, srv ''C'' 0])) =
     map Inr [srv ''B'' 0, srv ''C'' 0, srv ''A'' 0, srv ''B'' 0, srv ''C'' 0, srv ''A'' 0,
              srv ''B'' 0, srv ''C'' 0, srv ''A'' 0]"
proof (intro conjI impI)
  assume "servers s \<noteq> [] \<and> 0 \<le> sint (count s + 1)"
  then show "roundRobin s =
        (Inr (servers s ! (unat (count s + 1) mod length (servers s))),
         s\<lparr>count := count s + 1\<rparr>)"
    using roundRobin_index [of s] by simp
next
  show "roundRobin_times 9
       (newServers (pool_spec policyRoundRobin [srv ''A'' 0, srv ''B'' 0, srv ''C'' 0])) =
     map Inr [srv ''B'' 0, srv ''C'' 0, srv ''A'' 0, srv ''B'' 0, srv ''C'' 0, srv ''A'' 0,
              srv ''B'' 0, srv ''C'' 0, srv ''A'' 0]"
    by (simp add: eval_nat_numeral pool_spec_def newServers_def prepare_def roundRobin_def
        go_rem_def go_index_def Let_def)
qed

text \<open>The theorem at a pool of three servers whose counter stands at 4: the selection
  returns the server at index 5 mod 3 = 2.\<close>

theorem roundRobin_selects_witness:
  "servers ((newServers (pool_spec policyRoundRobin [srv ''A'' 0, srv ''B'' 0, srv ''C'' 0]))
        \<lparr>count := 4\<rparr>) \<noteq> [] \<and>
   0 \<le> sint (count ((newServers (pool_spec policyRoundRobin [srv ''A'' 0, srv ''B'' 0, srv ''C'' 0]))
        \<lparr>count := 4\<rparr>) + 1) \<and>
   fst (roundRobin ((newServers (pool_spec policyRoundRobin [srv ''A'' 0, srv ''B'' 0, srv ''C'' 0]))
        \<lparr>count := 4\<rparr>)) = Inr (srv ''C'' 0)"
  using roundRobin_selects
    [of "(newServers (pool_spec policyRoundRobin [srv ''A'' 0, srv ''B'' 0, srv ''C'' 0]))
        \<lparr>count := 4\<rparr>"]
  by (simp add: pool_spec_def newServers_def prepare_def)

text \<open>Claim C1 as the spec states it fails: the first of the nine selections from a fresh
  pool is B, so the order is not A, B, C, A, B, C, A, B, C.\<close>

theorem roundRobin_order_counterexample:
  "roundRobin_times 9
       (newServers (pool_spec policyRoundRobin [srv ''A'' 0, srv ''B'' 0, srv ''C'' 0])) \<noteq>
     map Inr [srv ''A'' 0, srv ''B'' 0, srv ''C'' 0, srv ''A'' 0, srv ''B'' 0, srv ''C'' 0,
              srv ''A'' 0, srv ''B'' 0, srv ''C'' 0]"
  by (simp add: eval_nat_numeral pool_spec_def newServers_def prepare_def roundRobin_def
      go_rem_def go_index_def Let_def srv_def)

text \<open>
  Claim C3, at the pools it is about. With \<open>weightsSum\<close> equal to 0, \<open>weightedRandom\<close>
  calls \<open>rand.Intn\<close> with 0 first, which panics: the selection fails before the loop and
  before the fallback to \<open>random\<close> at its end, and no server is returned.
\<close>

theorem weightedRandom_zero_weightsSum:
  "servers s \<noteq> [] \<Longrightarrow> weightsSum s = 0 \<Longrightarrow>
   weightedRandom s e = (Inl InvalidArgumentToIntn, e)"
  by (simp add: weightedRandom_def Intn_def)

text \<open>The theorem at the pool built from two servers of weight 0.\<close>

theorem weightedRandom_zero_weightsSum_witness:
  "servers (newServers (pool_spec policyWeightedRandom [srv ''A'' 0, srv ''B'' 0])) \<noteq> [] \<and>
   weightsSum (newServers (pool_spec policyWeightedRandom [srv ''A'' 0, srv ''B'' 0])) = 0 \<and>
   weightedRandom (newServers (pool_spec policyWeightedRandom [srv ''A'' 0, srv ''B'' 0]))
       (constant_env 0) =
     (Inl InvalidArgumentToIntn, constant_env 0)"
proof -
  let ?s = "newServers (pool_spec policyWeightedRandom [srv ''A'' 0, srv ''B'' 0])"
  have h1: "servers ?s \<noteq> []"
    by (simp add: pool_spec_def newServers_def prepare_def)
  have h2: "weightsSum ?s = 0"
    by (simp add: pool_spec_def newServers_def prepare_def srv_def go_int_def)
  from h1 h2 weightedRandom_zero_weightsSum [OF h1 h2, of "constant_env 0"]
  show ?thesis by simp
qed

text \<open>
  Claim C6. For a pool that is not empty, whose weights lie in the range of the struct
  tag (0 to 100) and whose \<open>weightsSum\<close> is the sum of its servers' weights (as
  \<open>newServers\<close> leaves it), a positive Go \<open>int\<close>, \<open>weightedRandom\<close> draws \<open>r\<close> with
  \<open>0 \<le> r < weightsSum\<close> and returns the first server in list order whose cumulative weight
  exceeds \<open>r\<close>. Over the pool of A with weight 1 and B, C with weight 0, every selection
  returns A, whatever the random source.
\<close>

theorem weightedRandom_first_exceeding:
  "(servers s \<noteq> [] \<and> list_all weightInRange (servers s) \<and>
    weightsSum s = sum_list (map Weight (servers s)) \<and> 0 < weightsSum s \<and>
    weightsSum s < 2 ^ 63 \<longrightarrow>
      (\<exists>r i. fst (Intn (weightsSum s) e) = Inr r \<and> 0 \<le> r \<and> r < weightsSum s \<and>
         i < length (servers s) \<and> fst (weightedRandom s e) = Inr (servers s ! i) \<and>
         r < cumulativeWeight (servers s) i \<and>
         (\<forall>j<i. cumulativeWeight (servers s) j \<le> r))) \<and>
   fst (weightedRandom
          (newServers (pool_spec policyWeightedRandom [srv ''A'' 1, srv ''B'' 0, srv ''C'' 0])) e') =
     Inr (srv ''A'' 1)"
proof (intro conjI impI)
  assume "servers s \<noteq> [] \<and> list_all weightInRange (servers s) \<and>
    weightsSum s = sum_list (map Weight (servers s)) \<and> 0 < weightsSum s \<and>
    weightsSum s < 2 ^ 63"
  then show "\<exists>r i. fst (Intn (weightsSum s) e) = Inr r \<and> 0 \<le> r \<and> r < weightsSum s \<and>
         i < length (servers s) \<and> fst (weightedRandom s e) = Inr (servers s ! i) \<and>
         r < cumulativeWeight (servers s) i \<and>
         (\<forall>j<i. cumulativeWeight (servers s) j \<le> r)"
    using weightedRandom_picks [of s e] by simp
next
  show "fst (weightedRandom
          (newServers (pool_spec policyWeightedRandom [srv ''A'' 1, srv ''B'' 0, srv ''C'' 0])) e') =
     Inr (srv ''A'' 1)"
    by (simp add: weightedRandom_def newServers_def prepare_def pool_spec_def Intn_def Let_def
        srv_def go_int_def)
qed

text \<open>The theorem at the weights 2, 3, 5 and a raw value 14: the draw is 14 mod 10 = 4, the
  cumulative weights are 2, 5, 10, and the selection returns B.\<close>

theorem weightedRandom_first_exceeding_witness:
  "servers (newServers (pool_spec policyWeightedRandom [srv ''A'' 2, srv ''B'' 3, srv ''C'' 5])) \<noteq> [] \<and>
   list_all weightInRange
     (servers (newServers (pool_spec policyWeightedRandom [srv ''A'' 2, srv ''B'' 3, srv ''C'' 5]))) \<and>
   weightsSum (newServers (pool_spec policyWeightedRandom [srv ''A'' 2, srv ''B'' 3, srv ''C'' 5])) =
     sum_list (map Weight
       (servers (newServers (pool_spec policyWeightedRandom [srv ''A'' 2, srv ''B'' 3, srv ''C'' 5])))) \<and>
   0 < weightsSum (newServers (pool_spec policyWeightedRandom [srv ''A'' 2, srv ''B'' 3, srv ''C'' 5])) \<and>
   weightsSum (newServers (pool_spec policyWeightedRandom [srv ''A'' 2, srv ''B'' 3, srv ''C'' 5])) <
     2 ^ 63 \<and>
   (\<exists>r i. fst (Intn (weightsSum
              (newServers (pool_spec policyWeightedRandom [srv ''A'' 2, srv ''B'' 3, srv ''C'' 5])))
              (constant_env 14)) = Inr r \<and>
      fst (weightedRandom
             (newServers (pool_spec policyWeightedRandom [srv ''A'' 2, srv ''B'' 3, srv ''C'' 5]))
             (constant_env 14)) =
        Inr (servers
          (newServers (pool_spec policyWeightedRandom [srv ''A'' 2, srv ''B'' 3, srv ''C'' 5])) ! i) \<and>
      r < cumulativeWeight (servers
          (newServers (pool_spec policyWeightedRandom [srv ''A'' 2, srv ''B'' 3, srv ''C'' 5]))) i) \<and>
   fst (weightedRandom
          (newServers (pool_spec policyWeightedRandom [srv ''A'' 2, srv ''B'' 3, srv ''C'' 5]))
          (constant_env 14)) = Inr (srv ''B'' 3)"
proof -
  let ?s = "newServers (pool_spec policyWeightedRandom [srv ''A'' 2, srv ''B'' 3, srv ''C'' 5])"
  have h: "servers ?s \<noteq> [] \<and> list_all weightInRange (servers ?s) \<and>
      weightsSum ?s = sum_list (map Weight (servers ?s)) \<and> 0 < weightsSum ?s \<and>
      weightsSum ?s < 2 ^ 63"
    by (simp add: pool_spec_def newServers_def prepare_def srv_def go_int_def weightInRange_def)
  have b: "fst (weightedRandom ?s (constant_env 14)) = Inr (srv ''B'' 3)"
    by (simp add: weightedRandom_def newServers_def prepare_def pool_spec_def Intn_def Let_def
        srv_def constant_env_def go_int_def)
  from weightedRandom_first_exceeding [of ?s "constant_env 14", THEN conjunct1, rule_format, OF h]
  obtain r i where "fst (Intn (weightsSum ?s) (constant_env 14)) = Inr r"
    "fst (weightedRandom ?s (constant_env 14)) = Inr (servers ?s ! i)"
    "r < cumulativeWeight (servers ?s) i" by blast
  with h b show ?thesis by blast
qed

text \<open>
  Claim C7, as the code has it. \<open>LoadBalance.Validate\<close> returns an error exactly for the
  policy headerHash with an empty \<open>headerHashKey\<close>; for every other policy value, one of the
  four other known policies or not, it returns \<open>nil\<close> regardless of \<open>headerHashKey\<close> (the
  set of policy values is fixed by the \<open>oneof\<close> struct tag of the field, not by this
  method).
\<close>

theorem LoadBalance_Validate_headerHash_only:
  "(LoadBalance_Validate l \<noteq> None \<longleftrightarrow> Policy l = policyHeaderHash \<and> HeaderHashKey l = []) \<and>
   (Policy l \<noteq> policyHeaderHash \<longrightarrow> LoadBalance_Validate l = None)"
  by (simp add: LoadBalance_Validate_def)

text \<open>The theorem at the policy ipHash with a header key given.\<close>

theorem LoadBalance_Validate_headerHash_only_witness:
  "Policy \<lparr>Policy = policyIPHash, HeaderHashKey = ''X-Id''\<rparr> \<noteq> policyHeaderHash \<and>
   LoadBalance_Validate \<lparr>Policy = policyIPHash, HeaderHashKey = ''X-Id''\<rparr> = None"
  using LoadBalance_Validate_headerHash_only [of "\<lparr>Policy = policyIPHash, HeaderHashKey = ''X-Id''\<rparr>"]
  by (simp add: policyIPHash_def policyHeaderHash_def)

text \<open>Claim C7 as the spec states it fails: the policy value \<open>fastest\<close> is none of the five
  known policies, and \<open>LoadBalance.Validate\<close> returns \<open>nil\<close> for it.\<close>

theorem LoadBalance_Validate_unknown_policy_counterexample:
  "''fastest'' \<notin> {policyRoundRobin, policyRandom, policyWeightedRandom, policyIPHash,
                    policyHeaderHash} \<and>
   LoadBalance_Validate \<lparr>Policy = ''fastest'', HeaderHashKey = []\<rparr> = None"
  by (simp add: LoadBalance_Validate_def policyRoundRobin_def policyRandom_def
      policyWeightedRandom_def policyIPHash_def policyHeaderHash_def)

text \<open>
  Claim C8. The pool built by \<open>newServers\<close> holds all of the spec's servers when
  \<open>ServersTags\<close> is empty, and otherwise exactly the spec's servers, in their order, whose
  tags have a tag in common with \<open>ServersTags\<close>. Its \<open>weightsSum\<close> is the sum of the weights
  of these servers as Go's \<open>int\<close> computes it; for a spec whose weights lie in the range
  of the struct tag (0 to 100), with at most \<open>2 ^ 56\<close> servers, that is the sum itself.
\<close>

theorem newServers_pool:
  "servers (newServers sp) =
     (if ServersTags sp = [] then Servers sp
      else filter (\<lambda>sv. set (Tags sv) \<inter> set (ServersTags sp) \<noteq> {}) (Servers sp)) \<and>
   weightsSum (newServers sp) = go_int (sum_list (map Weight (servers (newServers sp)))) \<and>
   (list_all weightInRange (Servers sp) \<and> length (Servers sp) \<le> 2 ^ 56 \<longrightarrow>
      weightsSum (newServers sp) = sum_list (map Weight (servers (newServers sp))))"
  using servers_newServers [of sp] weightsSum_newServers [of sp]
    weightsSum_newServers_exact [of sp]
  by simp

text \<open>The theorem at a spec with the filter blue, green and three servers, of which the
  first and the third carry one of these tags.\<close>

theorem newServers_pool_witness:
  "list_all weightInRange
     [\<lparr>URL = ''A'', Tags = [''green''], Weight = 3\<rparr>,
      \<lparr>URL = ''B'', Tags = [''red''], Weight = 4\<rparr>,
      \<lparr>URL = ''C'', Tags = [''red'', ''blue''], Weight = 5\<rparr>] \<and>
   length
     [\<lparr>URL = ''A'', Tags = [''green''], Weight = 3\<rparr>,
      \<lparr>URL = ''B'', Tags = [''red''], Weight = 4\<rparr>,
      \<lparr>URL = ''C'', Tags = [''red'', ''blue''], Weight = 5\<rparr>] \<le> 2 ^ 56 \<and>
   servers (newServers
      \<lparr>ServersTags = [''blue'', ''green''],
       Servers = [\<lparr>URL = ''A'', Tags = [''green''], Weight = 3\<rparr>,
                  \<lparr>URL = ''B'', Tags = [''red''], Weight = 4\<rparr>,
                  \<lparr>URL = ''C'', Tags = [''red'', ''blue''], Weight = 5\<rparr>],
       LoadBalance = \<lparr>Policy = policyWeightedRandom, HeaderHashKey = []\<rparr>\<rparr>) =
     [\<lparr>URL = ''A'', Tags = [''green''], Weight = 3\<rparr>,
      \<lparr>URL = ''C'', Tags = [''red'', ''blue''], Weight = 5\<rparr>] \<and>
   weightsSum (newServers
      \<lparr>ServersTags = [''blue'', ''green''],
       Servers = [\<lparr>URL = ''A'', Tags = [''green''], Weight = 3\<rparr>,
                  \<lparr>URL = ''B'', Tags = [''red''], Weight = 4\<rparr>,
                  \<lparr>URL = ''C'', Tags = [''red'', ''blue''], Weight = 5\<rparr>],
       LoadBalance = \<lparr>Policy = policyWeightedRandom, HeaderHashKey = []\<rparr>\<rparr>) = 8"
proof -
  let ?svs = "[\<lparr>URL = ''A'', Tags = [''green''], Weight = 3\<rparr>,
      \<lparr>URL = ''B'', Tags = [''red''], Weight = 4\<rparr>,
      \<lparr>URL = ''C'', Tags = [''red'', ''blue''], Weight = 5\<rparr>]"
  let ?sp = "\<lparr>ServersTags = [''blue'', ''green''], Servers = ?svs,
       LoadBalance = \<lparr>Policy = policyWeightedRandom, HeaderHashKey = []\<rparr>\<rparr>"
  have h1: "list_all weightInRange ?svs" by (simp add: weightInRange_def)
  have h2: "length ?svs \<le> 2 ^ 56" by simp
  have h: "list_all weightInRange (Servers ?sp) \<and> length (Servers ?sp) \<le> 2 ^ 56"
    using h1 h2 by simp
  from newServers_pool [of ?sp]
  have s: "servers (newServers ?sp) =
      (if ServersTags ?sp = [] then Servers ?sp
       else filter (\<lambda>sv. set (Tags sv) \<inter> set (ServersTags ?sp) \<noteq> {}) (Servers ?sp))"
    and w: "list_all weightInRange (Servers ?sp) \<and> length (Servers ?sp) \<le> 2 ^ 56 \<longrightarrow>
      weightsSum (newServers ?sp) = sum_list (map Weight (servers (newServers ?sp)))"
    by blast+
  from s have s': "servers (newServers ?sp) =
     [\<lparr>URL = ''A'', Tags = [''green''], Weight = 3\<rparr>,
      \<lparr>URL = ''C'', Tags = [''red'', ''blue''], Weight = 5\<rparr>]"
    by simp
  from w h have "weightsSum (newServers ?sp) = sum_list (map Weight (servers (newServers ?sp)))"
    by (rule mp)
  then have w': "weightsSum (newServers ?sp) = 8" unfolding s' by simp
  from h1 h2 s' w' show ?thesis by (intro conjI)
qed


section \<open>Properties of the pipeline configuration\<close>

lemma TrimSpace_Nil: "TrimSpace str = [] \<longleftrightarrow> list_all IsSpace str"
proof -
  have "TrimSpace str = [] \<longleftrightarrow> (\<forall>x\<in>set (dropWhile IsSpace str). IsSpace x)"
    by (simp add: TrimSpace_def dropWhile_eq_Nil_conv)
  also have "\<dots> \<longleftrightarrow> dropWhile IsSpace str = []"
  proof
    assume a: "\<forall>x\<in>set (dropWhile IsSpace str). IsSpace x"
    show "dropWhile IsSpace str = []"
    proof (rule ccontr)
      assume n: "dropWhile IsSpace str \<noteq> []"
      then have "\<not> IsSpace (hd (dropWhile IsSpace str))" by (rule hd_dropWhile)
      moreover have "hd (dropWhile IsSpace str) \<in> set (dropWhile IsSpace str)" using n by simp
      ultimately show False using a by blast
    qed
  next
    assume e: "dropWhile IsSpace str = []"
    show "\<forall>x\<in>set (dropWhile IsSpace str). IsSpace x" unfolding e by simp
  qed
  also have "\<dots> \<longleftrightarrow> list_all IsSpace str"
    by (simp add: dropWhile_eq_Nil_conv list_all_iff)
  finally show ?thesis .
qed

text \<open>
  Claim C9. \<open>CommonConfig.Prepare\<close> returns an error if and only if the pipeline name is
  blank (every rune of it is white space, which includes the empty name), the plugin
  list is empty, or the parallelism is zero; for a name that is not blank, a plugin list
  that is not empty and a parallelism of at least 1 it returns \<open>nil\<close>. Each error carries
  the message of the first check that fails.
\<close>

theorem Prepare_error_iff:
  "(Prepare c \<noteq> None \<longleftrightarrow>
      list_all IsSpace (Name c) \<or> Plugins c = [] \<or> ParallelismCount c = 0) \<and>
   (\<not> list_all IsSpace (Name c) \<and> Plugins c \<noteq> [] \<and> 1 \<le> ParallelismCount c \<longrightarrow>
      Prepare c = None) \<and>
   Prepare c \<in> {None, Some ''invalid pipeline name'', Some ''pipeline is empty'',
                Some ''invalid pipeline parallelism''}"
proof -
  have p: "ParallelismCount c < 1 \<longleftrightarrow> ParallelismCount c = 0"
    by (simp add: word_less_1)
  have q: "1 \<le> ParallelismCount c \<longleftrightarrow> ParallelismCount c \<noteq> 0"
    using p by (simp add: not_less [symmetric])
  show ?thesis
    by (simp add: Prepare_def PipelineName_def PluginNames_def Parallelism_def TrimSpace_Nil p q)
qed

text \<open>The theorem at a configuration that passes the three checks, beside one with a
  blank name, which is refused.\<close>

theorem Prepare_error_iff_witness:
  "\<not> list_all IsSpace (Name config_ok) \<and> Plugins config_ok \<noteq> [] \<and>
   1 \<le> ParallelismCount config_ok \<and> Prepare config_ok = None \<and>
   list_all IsSpace (Name config_blank) \<and> Prepare config_blank \<noteq> None"
  using Prepare_error_iff [of config_ok] Prepare_error_iff [of config_blank]
  by (simp add: config_ok_def config_blank_def IsSpace_def)


section \<open>Properties of the registry sync\<close>

lemma getClient_ok: "\<exists>cl. getClient esr = (Inr cl, esr\<lparr>client := Some cl\<rparr>)"
  by (cases "client esr") (simp_all add: getClient_def buildClient_def Let_def)

lemma instanceStep_cases:
  "(Port i = None \<and> instanceStep n i st = Inl NilPointerDereference) \<or>
   (Port i \<noteq> None \<and> \<not> isl (instanceStep n i st))"
  by (cases "Port i") (simp_all add: instanceStep_def Let_def)

lemma instancesLoop_cases:
  "instancesLoop n is st = Inl NilPointerDereference \<or> \<not> isl (instancesLoop n is st)"
proof (induction "is" arbitrary: st)
  case Nil
  then show ?case by simp
next
  case (Cons i "is")
  show ?case
  proof (cases "instanceStep n i st")
    case (Inl p)
    with instanceStep_cases [of i n st] show ?thesis by simp
  next
    case (Inr st')
    with Cons.IH [of st'] show ?thesis by simp
  qed
qed

lemma instancesLoop_nil:
  "\<exists>inst\<in>set is. Port inst = None \<Longrightarrow> instancesLoop n is st = Inl NilPointerDereference"
proof (induction "is" arbitrary: st)
  case Nil
  then show ?case by simp
next
  case (Cons i "is")
  show ?case
  proof (cases "instanceStep n i st")
    case (Inl p)
    with instanceStep_cases [of i n st] show ?thesis by simp
  next
    case (Inr st')
    with instanceStep_cases [of i n st] have "Port i \<noteq> None" by auto
    with Cons.prems have "\<exists>inst\<in>set is. Port inst = None" by auto
    from Cons.IH [OF this] Inr show ?thesis by simp
  qed
qed

lemma appsLoop_nil:
  "\<exists>app\<in>set apps. \<exists>inst\<in>set (Instances app). Port inst = None \<Longrightarrow>
   appsLoop apps st = Inl NilPointerDereference"
proof (induction apps arbitrary: st)
  case Nil
  then show ?case by simp
next
  case (Cons a apps)
  show ?case
  proof (cases "\<exists>inst\<in>set (Instances a). Port inst = None")
    case True
    then show ?thesis by (simp add: instancesLoop_nil)
  next
    case False
    with Cons.prems have rest: "\<exists>app\<in>set apps. \<exists>inst\<in>set (Instances app). Port inst = None"
      by auto
    show ?thesis
    proof (cases "instancesLoop (app_Name a) (Instances a) st")
      case (Inl p)
      with instancesLoop_cases [of "app_Name a" "Instances a" st] show ?thesis by simp
    next
      case (Inr st')
      with Cons.IH [OF rest] show ?thesis by simp
    qed
  qed
qed

text \<open>
  Claim C2, as the code has it. \<open>Spec.Validate\<close> returns \<open>nil\<close> for every spec and \<open>New\<close>
  returns a registry for it, whatever its \<open>SyncInterval\<close>. A \<open>SyncInterval\<close> that does not
  parse is found by \<open>run\<close> on that registry: it logs the failure and returns, with no
  update made (no call on the global registry, \<open>serversNum\<close> as it was).
\<close>

theorem malformed_interval_found_by_run:
  "Spec_Validate sp = None \<and>
   (\<exists>esr. New sp None g = Inr (esr, g) \<and> spec esr = sp \<and>
      (ParseDuration (SyncInterval sp) = Inl err \<longrightarrow>
         run ParseDuration GetApplications evs (esr, g) =
           Inr (esr, g\<lparr>logged := logged g @ [ParseDurationFailed (SyncInterval sp) err]\<rparr>)))"
  by (simp add: Spec_Validate_def New_def run_def getClient_def buildClient_def Let_def)

text \<open>The theorem at the default spec with the interval \<open>soon\<close>.\<close>

theorem malformed_interval_found_by_run_witness:
  "ParseDuration_sample (SyncInterval (DefaultSpec\<lparr>SyncInterval := ''soon''\<rparr>)) =
     Inl ''time: invalid duration'' \<and>
   Spec_Validate (DefaultSpec\<lparr>SyncInterval := ''soon''\<rparr>) = None \<and>
   (\<exists>esr. New (DefaultSpec\<lparr>SyncInterval := ''soon''\<rparr>) None globals0 = Inr (esr, globals0) \<and>
      run ParseDuration_sample (upstream []) [Tick (upstream [])] (esr, globals0) =
        Inr (esr, globals0\<lparr>logged := [ParseDurationFailed ''soon'' ''time: invalid duration'']\<rparr>))"
proof -
  let ?sp = "DefaultSpec\<lparr>SyncInterval := ''soon''\<rparr>"
  have h: "ParseDuration_sample (SyncInterval ?sp) = Inl ''time: invalid duration''"
    by (simp add: ParseDuration_sample_def)
  have v: "Spec_Validate ?sp = None"
    by (simp add: Spec_Validate_def)
  have s: "SyncInterval ?sp = ''soon''" by simp
  have l: "logged globals0 = []" by (simp add: globals0_def)
  from malformed_interval_found_by_run
    [of ?sp globals0 ParseDuration_sample
        "''time: invalid duration''" "upstream []" "[Tick (upstream [])]", THEN conjunct2]
  obtain esr where e: "New ?sp None globals0 = Inr (esr, globals0)"
    and r: "ParseDuration_sample (SyncInterval ?sp) = Inl ''time: invalid duration'' \<longrightarrow>
     run ParseDuration_sample (upstream []) [Tick (upstream [])] (esr, globals0) =
       Inr (esr, globals0\<lparr>logged := logged globals0 @
         [ParseDurationFailed (SyncInterval ?sp) ''time: invalid duration'']\<rparr>)"
    by (elim exE conjE)
  from r h have "run ParseDuration_sample (upstream []) [Tick (upstream [])] (esr, globals0) =
       Inr (esr, globals0\<lparr>logged := logged globals0 @
         [ParseDurationFailed (SyncInterval ?sp) ''time: invalid duration'']\<rparr>)"
    by (rule mp)
  then have "run ParseDuration_sample (upstream []) [Tick (upstream [])] (esr, globals0) =
       Inr (esr, globals0\<lparr>logged := [ParseDurationFailed ''soon'' ''time: invalid duration'']\<rparr>)"
    unfolding s l by simp
  with e have "\<exists>esr. New ?sp None globals0 = Inr (esr, globals0) \<and>
      run ParseDuration_sample (upstream []) [Tick (upstream [])] (esr, globals0) =
        Inr (esr, globals0\<lparr>logged := [ParseDurationFailed ''soon'' ''time: invalid duration'']\<rparr>)"
    by (intro exI conjI)
  with h v show ?thesis by (intro conjI)
qed

text \<open>Claim C2 as the spec states it fails: it is not so that \<open>Spec.Validate\<close> rejects every
  spec whose \<open>SyncInterval\<close> does not parse; the spec with the interval \<open>soon\<close> passes.\<close>

theorem Spec_Validate_malformed_counterexample:
  "\<not> (\<forall>(ParseDuration :: string \<Rightarrow> string + int) sp.
        isl (ParseDuration (SyncInterval sp)) \<longrightarrow> Spec_Validate sp \<noteq> None)"
proof
  assume a: "\<forall>(ParseDuration :: string \<Rightarrow> string + int) sp.
        isl (ParseDuration (SyncInterval sp)) \<longrightarrow> Spec_Validate sp \<noteq> None"
  show False
    using a [rule_format, of ParseDuration_sample "DefaultSpec\<lparr>SyncInterval := ''soon''\<rparr>"]
    by (simp add: Spec_Validate_def ParseDuration_sample_def)
qed

text \<open>
  Claim C4, at an instance with both ports enabled, plain 8080 and secure 8443. The tick
  publishes two entries by one \<open>ReplaceServers\<close> call and counts 2 for the service, but
  the entry with the scheme https carries 8080, the number of the plain port: it is a
  copy of \<open>baseServer\<close> with the scheme alone changed. No entry carries 8443.
\<close>

theorem update_secure_entry_carries_plain_port:
  "update (upstream [\<lparr>app_Name = ''svc'', Instances = [instance_both]\<rparr>]) (esr0, globals0) =
     Inr (\<lparr>spec = DefaultSpec\<lparr>spec_Name := ''eureka''\<rparr>,
           client = Some (NewClient [''http://127.0.0.1:8761/eureka'']),
           serversNum = [''svc'' \<mapsto> 2], done_closed = False\<rparr>,
          \<lparr>calls =
             [ReplaceServers ''eureka''
                [\<lparr>ServiceName = ''svc'', Hostname = ''h1'', HostIP = ''10.0.0.1'',
                  Server_Port = 8080, Scheme = []\<rparr>,
                 \<lparr>ServiceName = ''svc'', Hostname = ''h1'', HostIP = ''10.0.0.1'',
                  Server_Port = 8080, Scheme = ''https''\<rparr>]],
           logged = [],
           stdout =
             [\<lparr>ServiceName = ''svc'', Hostname = ''h1'', HostIP = ''10.0.0.1'',
               Server_Port = 8080, Scheme = []\<rparr>,
              \<lparr>ServiceName = ''svc'', Hostname = ''h1'', HostIP = ''10.0.0.1'',
               Server_Port = 8080, Scheme = ''https''\<rparr>]\<rparr>)"
  by (simp add: update_def upstream_def esr0_def globals0_def instance_both_def getClient_def
      buildClient_def DefaultSpec_def instanceStep_def enabled_def emit_def increment_def Let_def)

text \<open>
  Claim C5. When the fetch of a tick fails (the client is not retrieved, or
  \<open>GetApplications\<close> returns an error), \<open>update\<close> returns without a panic, makes no call
  on the global registry, so that the published snapshot stays, leaves \<open>serversNum\<close> as
  it was, and logs one line.
\<close>

theorem update_fetch_error_keeps_snapshot:
  assumes "(\<exists>err. fst (getClient esr) = Inl err) \<or>
           (\<exists>cl err. fst (getClient esr) = Inr cl \<and> GetApplications cl = Inl err)"
  shows "\<exists>esr' g' entry. update GetApplications (esr, g) = Inr (esr', g') \<and>
           calls g' = calls g \<and> serversNum esr' = serversNum esr \<and>
           logged g' = logged g @ [entry]"
proof -
  obtain cl where cl: "getClient esr = (Inr cl, esr\<lparr>client := Some cl\<rparr>)"
    using getClient_ok by blast
  with assms obtain err where "GetApplications cl = Inl err" by auto
  with cl show ?thesis by (simp add: update_def)
qed

text \<open>The theorem at a registry that has published a snapshot, with the upstream down.\<close>

theorem update_fetch_error_keeps_snapshot_witness:
  "(\<exists>cl err. fst (getClient esr1) = Inr cl \<and> upstream_down cl = Inl err) \<and>
   (\<exists>esr' g' entry. update upstream_down (esr1, globals1) = Inr (esr', g') \<and>
      calls g' = calls globals1 \<and> serversNum esr' = serversNum esr1 \<and>
      logged g' = logged globals1 @ [entry])"
proof -
  have h: "\<exists>cl err. fst (getClient esr1) = Inr cl \<and> upstream_down cl = Inl err"
    by (simp add: getClient_def buildClient_def esr1_def esr0_def upstream_down_def Let_def)
  then have "(\<exists>err. fst (getClient esr1) = Inl err) \<or>
           (\<exists>cl err. fst (getClient esr1) = Inr cl \<and> upstream_down cl = Inl err)" ..
  from h update_fetch_error_keeps_snapshot [OF this, of globals1] show ?thesis by blast
qed

text \<open>
  Claim C10. \<open>update\<close> reads \<open>instance.Port.Port\<close> for the base server of every
  instance, before it tests \<open>instance.Port\<close>: when the upstream answers with applications
  among which an instance has no plain port, the tick ends in a nil dereference and
  publishes nothing, also when the secure port of that instance is set and enabled.
\<close>

theorem update_nil_Port_panics:
  assumes "fst (getClient esr) = Inr cl" and "GetApplications cl = Inr apps"
    and "\<exists>app\<in>set (Applications apps). \<exists>inst\<in>set (Instances app). Port inst = None"
  shows "update GetApplications (esr, g) = Inl NilPointerDereference"
proof -
  obtain cl' where c: "getClient esr = (Inr cl', esr\<lparr>client := Some cl'\<rparr>)"
    using getClient_ok by blast
  with assms(1) have "cl' = cl" by simp
  with c assms(2) show ?thesis
    by (simp add: update_def appsLoop_nil [OF assms(3)])
qed

text \<open>The theorem at an instance without plain port, whose secure port is enabled.\<close>

theorem update_nil_Port_panics_witness:
  "fst (getClient esr0) = Inr (NewClient [''http://127.0.0.1:8761/eureka'']) \<and>
   Port instance_secure_only = None \<and> enabled (SecurePort instance_secure_only) \<and>
   update (upstream [\<lparr>app_Name = ''svc'', Instances = [instance_secure_only]\<rparr>]) (esr0, globals0) =
     Inl NilPointerDereference"
proof -
  let ?apps = "\<lparr>Applications = [\<lparr>app_Name = ''svc'', Instances = [instance_secure_only]\<rparr>]\<rparr>"
  have h1: "fst (getClient esr0) = Inr (NewClient [''http://127.0.0.1:8761/eureka''])"
    by (simp add: getClient_def buildClient_def esr0_def DefaultSpec_def Let_def)
  have h2: "upstream [\<lparr>app_Name = ''svc'', Instances = [instance_secure_only]\<rparr>]
      (NewClient [''http://127.0.0.1:8761/eureka'']) = Inr ?apps"
    by (simp add: upstream_def)
  have h3: "\<exists>app\<in>set (Applications ?apps). \<exists>inst\<in>set (Instances app). Port inst = None"
    by (simp add: instance_secure_only_def)
  have h4: "Port instance_secure_only = None \<and> enabled (SecurePort instance_secure_only)"
    by (simp add: instance_secure_only_def enabled_def)
  from h1 h4
    update_nil_Port_panics
      [where GetApplications = "upstream [\<lparr>app_Name = ''svc'', Instances = [instance_secure_only]\<rparr>]"
         and g = globals0, OF h1 h2 h3]
  show ?thesis by simp
qed

end
